theory Spec2Isabelle
  imports Complex_Main "HOL-Library.Multiset" "HOL-Library.Sublist"
begin

section \<open>JavaScript primitives used by the parsers\<close>

text \<open>
  The parsers of \<^verbatim>\<open>src/chapter6/main.ts\<close> (outcomes in fp-ts \<^verbatim>\<open>Option\<close>) and of
  \<^verbatim>\<open>src/unnamed/part_001\<close> (outcomes in fp-ts \<^verbatim>\<open>Either\<close>) are built from four string
  primitives of the language: \<^verbatim>\<open>indexOf\<close>, \<^verbatim>\<open>slice\<close>, \<^verbatim>\<open>trim\<close> and \<^verbatim>\<open>Number\<close>.
  A raw string is a \<^typ>\<open>string\<close>, one \<^typ>\<open>char\<close> per code unit; the model therefore
  covers the strings whose code units are below 256, which includes every sample of the
  repository.
\<close>

text \<open>\<^verbatim>\<open>s.indexOf(c)\<close> for a one-character pattern: the first position of \<open>c\<close>, or \<open>-1\<close>.\<close>

fun index_from :: "char \<Rightarrow> string \<Rightarrow> int \<Rightarrow> int" where
  "index_from c [] i = - 1"
| "index_from c (x # xs) i = (if x = c then i else index_from c xs (i + 1))"

definition indexOf :: "string \<Rightarrow> char \<Rightarrow> int" where
  "indexOf s c = index_from c s 0"

text \<open>
  \<^verbatim>\<open>s.slice(b, e)\<close>: a negative index counts from the end, both indices are clamped to
  the length, and an empty string results when the start is not before the end.
\<close>

definition slice :: "string \<Rightarrow> int \<Rightarrow> int \<Rightarrow> string" where
  "slice s b e =
     (let len = int (length s);
          from = (if b < 0 then max (len + b) 0 else min b len);
          to = (if e < 0 then max (len + e) 0 else min e len)
      in if from \<ge> to then [] else take (nat (to - from)) (drop (nat from) s))"

text \<open>
  White space and line terminators of the language among the code units below 256:
  TAB, LF, VT, FF, CR, SP and NBSP. \<^verbatim>\<open>trim\<close> removes them at both ends, and \<^verbatim>\<open>Number\<close>
  ignores them at both ends.
\<close>

definition is_ws :: "char \<Rightarrow> bool" where
  "is_ws c = (c \<in> set [CHR 0x09, CHR 0x0A, CHR 0x0B, CHR 0x0C, CHR 0x0D, CHR '' '', CHR 0xA0])"

definition trim :: "string \<Rightarrow> string" where
  "trim s = rev (dropWhile is_ws (rev (dropWhile is_ws s)))"

text \<open>
  Number values. \<open>Fin q\<close> is the exact mathematical value of a literal; the final rounding
  of that value to a binary64 is not modelled, so \<open>Fin q\<close> is the number the program holds
  exactly when \<open>q\<close> is representable (every integer up to \<open>2 ^ 53\<close> in magnitude is), and
  the sign of zero is not tracked.
\<close>

datatype jsnum = NaN | PosInf | NegInf | Fin rat

definition is_digit :: "char \<Rightarrow> bool" where
  "is_digit c = (c \<in> set ''0123456789'')"

definition is_hex_digit :: "char \<Rightarrow> bool" where
  "is_hex_digit c = (c \<in> set ''0123456789abcdefABCDEF'')"

definition digit_val :: "char \<Rightarrow> nat" where
  "digit_val c =
     (if is_digit c then of_char c - 48
      else if c \<in> set ''abcdef'' then of_char c - 87
      else of_char c - 55)"

definition digits_val :: "nat \<Rightarrow> string \<Rightarrow> nat" where
  "digits_val base ds = foldl (\<lambda>acc c. acc * base + digit_val c) 0 ds"

text \<open>\<^verbatim>\<open>SignedInteger\<close> of an exponent part: digits with an optional sign.\<close>

definition signed_integer :: "string \<Rightarrow> int option" where
  "signed_integer x =
     (case x of
        [] \<Rightarrow> None
      | c # ds \<Rightarrow>
          if c = CHR ''+'' \<or> c = CHR ''-'' then
            (if ds \<noteq> [] \<and> list_all is_digit ds
             then Some ((if c = CHR ''-'' then - 1 else 1) * int (digits_val 10 ds))
             else None)
          else if list_all is_digit x then Some (int (digits_val 10 x))
          else None)"

text \<open>
  \<^verbatim>\<open>StrUnsignedDecimalLiteral\<close>: \<^verbatim>\<open>Infinity\<close>, or digits with an optional fraction and an
  optional exponent part, at least one digit in the mantissa.
\<close>

definition unsigned_decimal :: "string \<Rightarrow> jsnum" where
  "unsigned_decimal u =
     (if u = ''Infinity'' then PosInf
      else
        let not_e = (\<lambda>c. c \<noteq> CHR ''e'' \<and> c \<noteq> CHR ''E'');
            m = takeWhile not_e u;
            x = dropWhile not_e u;
            ip = takeWhile is_digit m;
            r = dropWhile is_digit m;
            fp = (case r of [] \<Rightarrow> [] | c # fs \<Rightarrow> fs);
            mantissa_ok =
              (case r of
                 [] \<Rightarrow> ip \<noteq> []
               | c # fs \<Rightarrow> c = CHR ''.'' \<and> list_all is_digit fs \<and> ip @ fs \<noteq> []);
            ex = (case x of [] \<Rightarrow> Some 0 | c # sx \<Rightarrow> signed_integer sx)
        in case ex of
             None \<Rightarrow> NaN
           | Some n \<Rightarrow>
               if \<not> mantissa_ok then NaN
               else
                 let k = n - int (length fp); v = digits_val 10 (ip @ fp)
                 in if k \<ge> 0 then Fin (of_nat v * 10 ^ nat k)
                    else Fin (of_nat v / 10 ^ nat (- k)))"

text \<open>\<^verbatim>\<open>NonDecimalIntegerLiteral\<close>: \<^verbatim>\<open>0b\<close>, \<^verbatim>\<open>0o\<close> or \<^verbatim>\<open>0x\<close> (either case) and digits.\<close>

definition non_decimal :: "string \<Rightarrow> jsnum option" where
  "non_decimal t =
     (case t of
        z # p # ds \<Rightarrow>
          if z = CHR ''0'' \<and> ds \<noteq> [] then
            (if p \<in> set ''bB'' \<and> list_all (\<lambda>c. c \<in> set ''01'') ds
               then Some (Fin (of_nat (digits_val 2 ds)))
             else if p \<in> set ''oO'' \<and> list_all (\<lambda>c. c \<in> set ''01234567'') ds
               then Some (Fin (of_nat (digits_val 8 ds)))
             else if p \<in> set ''xX'' \<and> list_all is_hex_digit ds
               then Some (Fin (of_nat (digits_val 16 ds)))
             else None)
          else None
      | _ \<Rightarrow> None)"

definition negate :: "jsnum \<Rightarrow> jsnum" where
  "negate v = (case v of NaN \<Rightarrow> NaN | PosInf \<Rightarrow> NegInf | NegInf \<Rightarrow> PosInf | Fin q \<Rightarrow> Fin (- q))"

text \<open>
  \<^verbatim>\<open>Number(s)\<close> on a string: white space is dropped at both ends, the empty string is
  \<open>0\<close>, a numeric literal has its value, and every other string is \<open>NaN\<close>. The conversion
  never throws.
\<close>

definition Number_js :: "string \<Rightarrow> jsnum" where
  "Number_js s =
     (let t = trim s
      in case t of
           [] \<Rightarrow> Fin 0
         | c # u \<Rightarrow>
             (case non_decimal t of
                Some v \<Rightarrow> v
              | None \<Rightarrow>
                  if c = CHR ''+'' then unsigned_decimal u
                  else if c = CHR ''-'' then negate (unsigned_decimal u)
                  else unsigned_decimal t))"

section \<open>Structured records and outcomes\<close>

text \<open>
  \<^verbatim>\<open>TvShow\<close> is \<^verbatim>\<open>{ title, start, end }\<close>. Its declaration (\<^verbatim>\<open>./types\<close>) is imported but
  not part of the sources at hand, so the type of the two year fields is a parameter; the
  parsers and the sorter use it with \<^typ>\<open>jsnum\<close>, the numbers of the language.
  The field \<^verbatim>\<open>end\<close> is written \<open>end'\<close>.
\<close>

record 'n TvShow =
  title :: string
  start :: 'n
  end' :: 'n

text \<open>
  An fp-ts \<^verbatim>\<open>Option\<close> is an \<^typ>\<open>'a option\<close>. An fp-ts \<^verbatim>\<open>Either\<close> with a message on the
  left is a sum \<^typ>\<open>string + 'a\<close>: \<open>Inl\<close> is \<^verbatim>\<open>left\<close> (the failure and its diagnostic),
  \<open>Inr\<close> is \<^verbatim>\<open>right\<close>. The \<^verbatim>\<open>Do\<close>/\<^verbatim>\<open>bind\<close>/\<^verbatim>\<open>map\<close> pipelines of the source are chains of
  \<open>Option.bind\<close> and of \<open>bind_E\<close>.
\<close>

definition bind_E :: "'e + 'a \<Rightarrow> ('a \<Rightarrow> 'e + 'b) \<Rightarrow> 'e + 'b" where
  "bind_E ma f = (case ma of Inl e \<Rightarrow> Inl e | Inr a \<Rightarrow> f a)"

text \<open>
  \<^verbatim>\<open>O.orElse(that)(fa)\<close> and \<^verbatim>\<open>E.orElse(onLeft)(ma)\<close>: the alternative is a function, called
  only when the first outcome is a failure.
\<close>

definition orElse_O :: "(unit \<Rightarrow> 'a option) \<Rightarrow> 'a option \<Rightarrow> 'a option" where
  "orElse_O that fa = (case fa of None \<Rightarrow> that () | Some a \<Rightarrow> Some a)"

definition orElse_E :: "('e \<Rightarrow> 'f + 'a) \<Rightarrow> 'e + 'a \<Rightarrow> 'f + 'a" where
  "orElse_E onLeft ma = (case ma of Inl e \<Rightarrow> onLeft e | Inr a \<Rightarrow> Inr a)"

text \<open>
  The same combinators with an alternative that may have an effect on a state \<open>'s\<close>, as a
  function of the language can: the state is threaded through every call that is made.
\<close>

definition orElse_O_st ::
  "('s \<Rightarrow> 'a option \<times> 's) \<Rightarrow> 'a option \<Rightarrow> 's \<Rightarrow> 'a option \<times> 's" where
  "orElse_O_st that fa st = (case fa of None \<Rightarrow> that st | Some a \<Rightarrow> (Some a, st))"

definition orElse_E_st ::
  "('e \<Rightarrow> 's \<Rightarrow> ('f + 'a) \<times> 's) \<Rightarrow> 'e + 'a \<Rightarrow> 's \<Rightarrow> ('f + 'a) \<times> 's" where
  "orElse_E_st onLeft ma st = (case ma of Inl e \<Rightarrow> onLeft e st | Inr a \<Rightarrow> (Inr a, st))"

section \<open>Field extractors, \<^verbatim>\<open>Option\<close> variant (\<^verbatim>\<open>src/chapter6/main.ts\<close>)\<close>

definition extractTitle_O :: "string \<Rightarrow> string option" where
  "extractTitle_O rawShow =
     (let bracketOpen = indexOf rawShow CHR ''(''
      in if bracketOpen > 0 then Some (trim (slice rawShow 0 (bracketOpen - 1))) else None)"

definition extractYearStart_O :: "string \<Rightarrow> jsnum option" where
  "extractYearStart_O rawShow =
     (let bracketOpen = indexOf rawShow CHR ''('';
          dash = indexOf rawShow CHR ''-''
      in Option.bind
           (if bracketOpen \<noteq> - 1 \<and> dash \<noteq> - 1
            then Some (slice rawShow (bracketOpen + 1) dash) else None)
           (\<lambda>yearStr. Some (Number_js yearStr)))"

definition extractYearEnd_O :: "string \<Rightarrow> jsnum option" where
  "extractYearEnd_O rawShow =
     (let bracketClose = indexOf rawShow CHR '')'';
          dash = indexOf rawShow CHR ''-''
      in Option.bind
           (if dash \<noteq> - 1 \<and> bracketClose \<noteq> - 1
            then Some (slice rawShow (dash + 1) bracketClose) else None)
           (\<lambda>yearStr. Some (Number_js yearStr)))"

definition extractSingleYear_O :: "string \<Rightarrow> jsnum option" where
  "extractSingleYear_O rawShow =
     (let dash = indexOf rawShow CHR ''-'';
          bracketOpen = indexOf rawShow CHR ''('';
          bracketClose = indexOf rawShow CHR '')''
      in Option.bind
           (if dash = - 1 \<and> bracketOpen \<noteq> - 1 \<and> bracketClose > bracketOpen + 1
            then Some (slice rawShow (bracketOpen + 1) bracketClose) else None)
           (\<lambda>yearStr. Some (Number_js yearStr)))"

definition parseShow_O :: "string \<Rightarrow> jsnum TvShow option" where
  "parseShow_O rawShow =
     Option.bind (extractTitle_O rawShow) (\<lambda>t.
     Option.bind (orElse_O (\<lambda>_. extractSingleYear_O rawShow) (extractYearStart_O rawShow)) (\<lambda>s.
     Option.bind (orElse_O (\<lambda>_. extractSingleYear_O rawShow) (extractYearEnd_O rawShow)) (\<lambda>e.
     Some \<lparr>title = t, start = s, end' = e\<rparr>)))"

definition addOrResign_O :: "'a list option \<Rightarrow> 'a option \<Rightarrow> 'a list option" where
  "addOrResign_O parsedShows newParsedShow =
     Option.bind parsedShows (\<lambda>shows.
     Option.bind newParsedShow (\<lambda>parsedShow.
     Some (shows @ [parsedShow])))"

text \<open>\<^verbatim>\<open>A.reduce(initial, f)\<close> is a left fold from \<^verbatim>\<open>some([])\<close> over the parsed items.\<close>

definition parseShows_O :: "string list \<Rightarrow> jsnum TvShow list option" where
  "parseShows_O rawShows =
     foldl (\<lambda>acc show. addOrResign_O acc show) (Some []) (map parseShow_O rawShows)"

section \<open>Field extractors, \<^verbatim>\<open>Either\<close> variant (\<^verbatim>\<open>src/unnamed/part_001\<close>)\<close>

definition extractTitle_E :: "string \<Rightarrow> string + string" where
  "extractTitle_E rawShow =
     (let bracketOpen = indexOf rawShow CHR ''(''
      in if bracketOpen > 0 then Inr (trim (slice rawShow 0 (bracketOpen - 1)))
         else Inl (''Cannot extract title from: '' @ rawShow))"

definition extractYearStart_E :: "string \<Rightarrow> string + jsnum" where
  "extractYearStart_E rawShow =
     (let bracketOpen = indexOf rawShow CHR ''('';
          dash = indexOf rawShow CHR ''-''
      in bind_E
           (if bracketOpen \<noteq> - 1 \<and> dash > bracketOpen + 1
            then Inr (slice rawShow (bracketOpen + 1) dash)
            else Inl (''Cannot extract year start from: '' @ rawShow))
           (\<lambda>yearStr. Inr (Number_js yearStr)))"

definition extractYearEnd_E :: "string \<Rightarrow> string + jsnum" where
  "extractYearEnd_E rawShow =
     (let dash = indexOf rawShow CHR ''-'';
          bracketClose = indexOf rawShow CHR '')''
      in bind_E
           (if dash \<noteq> - 1 \<and> bracketClose > dash + 1
            then Inr (slice rawShow (dash + 1) bracketClose)
            else Inl (''Cannot extract year end from: '' @ rawShow))
           (\<lambda>yearStr. Inr (Number_js yearStr)))"

definition extractSingleYear_E :: "string \<Rightarrow> string + jsnum" where
  "extractSingleYear_E rawShow =
     (let dash = indexOf rawShow CHR ''-'';
          bracketOpen = indexOf rawShow CHR ''('';
          bracketClose = indexOf rawShow CHR '')''
      in bind_E
           (if dash = - 1 \<and> bracketOpen \<noteq> - 1 \<and> bracketClose > bracketOpen + 1
            then Inr (slice rawShow (bracketOpen + 1) bracketClose)
            else Inl (''Cannot extract single year from: '' @ rawShow))
           (\<lambda>yearStr. Inr (Number_js yearStr)))"

definition parseShow_E :: "string \<Rightarrow> string + jsnum TvShow" where
  "parseShow_E rawShow =
     bind_E (extractTitle_E rawShow) (\<lambda>t.
     bind_E (orElse_E (\<lambda>_. extractSingleYear_E rawShow) (extractYearStart_E rawShow)) (\<lambda>s.
     bind_E (orElse_E (\<lambda>_. extractSingleYear_E rawShow) (extractYearEnd_E rawShow)) (\<lambda>e.
     Inr \<lparr>title = t, start = s, end' = e\<rparr>)))"

definition addOrResign_E :: "'e + 'a list \<Rightarrow> 'e + 'a \<Rightarrow> 'e + 'a list" where
  "addOrResign_E parsedShows newParsedShow =
     bind_E parsedShows (\<lambda>shows.
     bind_E newParsedShow (\<lambda>parsedShow.
     Inr (shows @ [parsedShow])))"

definition parseShows_E :: "string list \<Rightarrow> string + jsnum TvShow list" where
  "parseShows_E rawShows =
     foldl (\<lambda>acc show. addOrResign_E acc show) (Inr []) (map parseShow_E rawShows)"

text \<open>The sample input of both files.\<close>

definition rawShows :: "string list" where
  "rawShows =
     [''The Office (2005-2013)'', ''Breaking Bad (2008-2013)'', ''Friends (1994-2004)'',
      ''The Simpsons, 1989-2021'', ''Game of Thrones (2011)'']"

section \<open>Sorting by the length of the run (\<^verbatim>\<open>src/chapter6/main.ts\<close>)\<close>

text \<open>
  The years of a record are numbers of the language, so the sorter works on \<^typ>\<open>jsnum\<close>
  years, \<open>NaN\<close> and the infinities included (the parsers above can fill a record with
  them). \<open>js_sub\<close> is the subtraction of the language and \<open>js_lt\<close>, \<open>js_le\<close> its
  comparisons \<^verbatim>\<open><\<close> and \<^verbatim>\<open><=\<close>: every comparison with \<open>NaN\<close> is false. As for
  \<open>Number_js\<close>, a finite difference is the exact one; the language rounds it to a
  binary64, which changes nothing when both years are integers of magnitude at most
  \<open>2 ^ 52\<close> (\<open>safe_year\<close>), the difference then being an integer of magnitude at most
  \<open>2 ^ 53\<close>.
\<close>

fun js_sub :: "jsnum \<Rightarrow> jsnum \<Rightarrow> jsnum" where
  "js_sub NaN b = NaN"
| "js_sub a NaN = NaN"
| "js_sub (Fin p) (Fin q) = Fin (p - q)"
| "js_sub (Fin p) PosInf = NegInf"
| "js_sub (Fin p) NegInf = PosInf"
| "js_sub PosInf PosInf = NaN"
| "js_sub PosInf b = PosInf"
| "js_sub NegInf NegInf = NaN"
| "js_sub NegInf b = NegInf"

fun js_lt :: "jsnum \<Rightarrow> jsnum \<Rightarrow> bool" where
  "js_lt (Fin p) (Fin q) = (p < q)"
| "js_lt (Fin p) PosInf = True"
| "js_lt NegInf (Fin q) = True"
| "js_lt NegInf PosInf = True"
| "js_lt a b = False"

definition js_le :: "jsnum \<Rightarrow> jsnum \<Rightarrow> bool" where
  "js_le a b = (a \<noteq> NaN \<and> b \<noteq> NaN \<and> (js_lt a b \<or> a = b))"

definition safe_year :: "jsnum \<Rightarrow> bool" where
  "safe_year v = (case v of Fin q \<Rightarrow> q = of_int \<lfloor>q\<rfloor> \<and> \<bar>q\<bar> \<le> 2 ^ 52 | _ \<Rightarrow> False)"

text \<open>The rational of a finite number, to state orders on finite keys.\<close>

definition fin_val :: "jsnum \<Rightarrow> rat" where
  "fin_val v = (case v of Fin q \<Rightarrow> q | _ \<Rightarrow> 0)"

text \<open>
  An fp-ts \<^verbatim>\<open>Ord\<close> is its \<^verbatim>\<open>compare\<close> function, with results \<open>-1\<close>, \<open>0\<close> and \<open>1\<close>.
  \<^verbatim>\<open>N.Ord\<close> compares numbers with \<^verbatim>\<open><\<close> and \<^verbatim>\<open>>\<close>, and so answers \<open>0\<close> whenever an
  operand is \<open>NaN\<close>; \<^verbatim>\<open>contramap\<close> compares through a key; \<^verbatim>\<open>sortBy\<close> joins a list of
  orders with the monoid of \<^verbatim>\<open>Ord\<close> (the first order that tells two elements apart
  decides) and sorts a copy of the array with the joined order.
  The sort of the language is stable, and with a comparator that is consistent on the
  elements of the array its result is the one of the stable insertion sort below. With an
  inconsistent one (a \<open>NaN\<close> key among keys that differ) the language leaves the order
  to the implementation, and \<open>sort_cmp\<close> is then one of the permitted results only.
\<close>

type_synonym 'a Ord = "'a \<Rightarrow> 'a \<Rightarrow> int"

definition N_Ord :: "jsnum Ord" where
  "N_Ord first second = (if js_lt first second then - 1 else if js_lt second first then 1 else 0)"

definition contramap :: "('b \<Rightarrow> 'a) \<Rightarrow> 'a Ord \<Rightarrow> 'b Ord" where
  "contramap f fa = (\<lambda>x y. fa (f x) (f y))"

definition Ord_empty :: "'a Ord" where
  "Ord_empty = (\<lambda>x y. 0)"

definition Ord_concat :: "'a Ord \<Rightarrow> 'a Ord \<Rightarrow> 'a Ord" where
  "Ord_concat first second = (\<lambda>a b. let ox = first a b in if ox \<noteq> 0 then ox else second a b)"

fun insort_cmp :: "'a Ord \<Rightarrow> 'a \<Rightarrow> 'a list \<Rightarrow> 'a list" where
  "insort_cmp cmp x [] = [x]"
| "insort_cmp cmp x (y # ys) = (if cmp x y \<le> 0 then x # y # ys else y # insort_cmp cmp x ys)"

definition sort_cmp :: "'a Ord \<Rightarrow> 'a list \<Rightarrow> 'a list" where
  "sort_cmp cmp xs = foldr (insort_cmp cmp) xs []"

definition sortBy :: "'a Ord list \<Rightarrow> 'a list \<Rightarrow> 'a list" where
  "sortBy ords as = sort_cmp (foldl Ord_concat Ord_empty ords) as"

definition byPeriod :: "jsnum TvShow Ord" where
  "byPeriod = contramap (\<lambda>tvShow. js_sub (end' tvShow) (start tvShow)) N_Ord"

definition sortShows :: "jsnum TvShow list \<Rightarrow> jsnum TvShow list" where
  "sortShows shows = rev (sortBy [byPeriod] shows)"

definition shows' :: "jsnum TvShow list" where
  "shows' =
     [\<lparr>title = ''The Office'', start = Fin 2005, end' = Fin 2013\<rparr>,
      \<lparr>title = ''Breaking Bad'', start = Fin 2008, end' = Fin 2013\<rparr>,
      \<lparr>title = ''Friends'', start = Fin 1994, end' = Fin 2004\<rparr>,
      \<lparr>title = ''The Simpsons'', start = Fin 1989, end' = Fin 2021\<rparr>]"

text \<open>A record whose two years are integers of magnitude at most \<open>2 ^ 52\<close>.\<close>

definition safe_show :: "jsnum TvShow \<Rightarrow> bool" where
  "safe_show s = (safe_year (start s) \<and> safe_year (end' s))"

section \<open>Facts about the string primitives\<close>

lemma index_from_absent: "c \<notin> set s \<Longrightarrow> index_from c s i = - 1"
  by (induction s arbitrary: i) auto

lemma index_from_first: "c \<notin> set xs \<Longrightarrow> index_from c (xs @ c # ys) i = i + int (length xs)"
  by (induction xs arbitrary: i) auto

lemma indexOf_absent: "c \<notin> set s \<Longrightarrow> indexOf s c = - 1"
  by (simp add: indexOf_def index_from_absent)

lemma indexOf_first: "c \<notin> set xs \<Longrightarrow> indexOf (xs @ c # ys) c = int (length xs)"
  by (simp add: indexOf_def index_from_first)

lemma indexOf_present:
  assumes "c \<in> set s"
  shows "0 \<le> indexOf s c \<and> indexOf s c < int (length s) \<and> s ! nat (indexOf s c) = c
         \<and> c \<notin> set (take (nat (indexOf s c)) s)"
proof -
  from assms obtain xs ys where s: "s = xs @ c # ys" and n: "c \<notin> set xs"
    by (auto dest: split_list_first)
  then show ?thesis by (simp add: indexOf_first)
qed

lemma indexOf_absent_iff: "indexOf s c = - 1 \<longleftrightarrow> c \<notin> set s"
  using indexOf_present [of c s] indexOf_absent [of c s] by auto

lemma indexOf_ge: "- 1 \<le> indexOf s c"
  using indexOf_present [of c s] indexOf_absent [of c s] by (cases "c \<in> set s") auto

text \<open>The first occurrence is at a position above 0 when there is one and it is not the head.\<close>

lemma indexOf_positive_iff: "0 < indexOf s c \<longleftrightarrow> c \<in> set s \<and> take 1 s \<noteq> [c]"
proof (cases "c \<in> set s")
  case False
  then show ?thesis by (simp add: indexOf_absent)
next
  case True
  note p = indexOf_present [OF True]
  from True obtain x xs where s: "s = x # xs" by (cases s) auto
  show ?thesis
  proof (cases "indexOf s c = 0")
    case True
    with p s show ?thesis by simp
  next
    case False
    with p have pos: "0 < indexOf s c" by simp
    then have "x \<in> set (take (nat (indexOf s c)) s)"
      using s by (auto simp: take_Cons')
    with p have "x \<noteq> c" by auto
    with pos True s show ?thesis by simp
  qed
qed

lemma slice_prefix: "0 \<le> n \<Longrightarrow> slice s 0 n = take (nat n) s"
  by (auto simp: slice_def Let_def min_def)

lemma slice_between:
  "s = xs @ ys @ zs \<Longrightarrow> b = int (length xs) \<Longrightarrow> e = b + int (length ys) \<Longrightarrow> slice s b e = ys"
  by (auto simp: slice_def Let_def min_def)

lemma dropWhile_all: "\<forall>x\<in>set xs. P x \<Longrightarrow> dropWhile P xs = []"
  by (induction xs) auto

lemma set_take_drop_while:
  "c \<in> set xs \<Longrightarrow> c \<in> set (takeWhile P xs) \<or> c \<in> set (dropWhile P xs)"
  by (metis Un_iff set_append takeWhile_dropWhile_id)

lemma set_dropWhile_not: "c \<in> set xs \<Longrightarrow> \<not> P c \<Longrightarrow> c \<in> set (dropWhile P xs)"
  using set_take_drop_while [of c xs P] by (auto dest: set_takeWhileD)

text \<open>A white-space character at the end of a string does not change what \<open>trim\<close> returns.\<close>

lemma trim_snoc_ws: "is_ws c \<Longrightarrow> trim (xs @ [c]) = trim xs"
proof (cases "\<forall>x\<in>set xs. is_ws x")
  case True
  assume "is_ws c"
  with True have "dropWhile is_ws (xs @ [c]) = []"
    by (intro dropWhile_all) simp
  moreover from True have "dropWhile is_ws xs = []"
    by (rule dropWhile_all)
  ultimately show ?thesis by (simp only: trim_def)
next
  case False
  assume c: "is_ws c"
  from False obtain x where "x \<in> set xs" "\<not> is_ws x" by blast
  then have "dropWhile is_ws (xs @ [c]) = dropWhile is_ws xs @ [c]"
    by (rule dropWhile_append1)
  with c show ?thesis by (simp add: trim_def)
qed

lemma set_trim: "\<not> is_ws c \<Longrightarrow> c \<in> set s \<Longrightarrow> c \<in> set (trim s)"
proof -
  assume c: "\<not> is_ws c" "c \<in> set s"
  have a: "\<And>xs. c \<in> set xs \<Longrightarrow> c \<in> set (dropWhile is_ws xs)"
    using c(1) by (simp add: set_dropWhile_not)
  from c(2) have "c \<in> set (rev (dropWhile is_ws s))" using a by simp
  then have "c \<in> set (dropWhile is_ws (rev (dropWhile is_ws s)))" by (rule a)
  then show ?thesis by (simp add: trim_def)
qed

text \<open>Definitions to unfold when a primitive is evaluated on a literal.\<close>

lemmas number_defs =
  Number_js_def trim_def is_ws_def non_decimal_def unsigned_decimal_def
  signed_integer_def is_digit_def digits_val_def digit_val_def negate_def

lemmas extractor_defs =
  extractTitle_O_def extractTitle_E_def
  extractYearStart_O_def extractYearStart_E_def extractYearEnd_O_def extractYearEnd_E_def
  extractSingleYear_O_def extractSingleYear_E_def bind_E_def indexOf_def slice_def

lemmas parseShow_defs = parseShow_O_def parseShow_E_def orElse_O_def orElse_E_def

subsection \<open>A string with a closing bracket is not numeric\<close>

lemma not_digit_paren:
  "\<not> is_digit CHR '')''" "\<not> is_ws CHR '')''" "\<not> is_hex_digit CHR '')''"
  by (simp_all add: is_digit_def is_ws_def is_hex_digit_def)

lemma paren_not_all: "CHR '')'' \<in> set xs \<Longrightarrow> \<not> P CHR '')'' \<Longrightarrow> \<not> list_all P xs"
  by (auto simp: list_all_iff)

lemma signed_integer_no_paren:
  assumes "CHR '')'' \<in> set x"
  shows "signed_integer x = None"
proof (cases x)
  case Nil
  with assms show ?thesis by simp
next
  case (Cons c ds)
  have x: "\<not> list_all is_digit x" using assms not_digit_paren(1) by (rule paren_not_all)
  show ?thesis
  proof (cases "c = CHR ''+'' \<or> c = CHR ''-''")
    case True
    with assms Cons have "CHR '')'' \<in> set ds" by auto
    then have "\<not> list_all is_digit ds" using not_digit_paren(1) by (rule paren_not_all)
    with True Cons show ?thesis by (simp add: signed_integer_def)
  next
    case False
    with x Cons show ?thesis by (simp add: signed_integer_def)
  qed
qed

lemma non_decimal_no_paren:
  assumes "CHR '')'' \<in> set t"
  shows "non_decimal t = None"
proof (cases t)
  case Nil
  then show ?thesis by (simp add: non_decimal_def)
next
  case (Cons z t')
  show ?thesis
  proof (cases t')
    case Nil
    with Cons show ?thesis by (simp add: non_decimal_def)
  next
    case (Cons p ds)
    show ?thesis
    proof (cases "z = CHR ''0'' \<and> p \<in> set ''bBoOxX''")
      case True
      with assms \<open>t = z # t'\<close> Cons have d: "CHR '')'' \<in> set ds" by auto
      have "\<not> list_all (\<lambda>c. c \<in> set ''01'') ds"
        using d by (rule paren_not_all) simp
      moreover have "\<not> list_all (\<lambda>c. c \<in> set ''01234567'') ds"
        using d by (rule paren_not_all) simp
      moreover have "\<not> list_all is_hex_digit ds"
        using d not_digit_paren(3) by (rule paren_not_all)
      ultimately show ?thesis using \<open>t = z # t'\<close> Cons by (simp add: non_decimal_def)
    next
      case False
      then show ?thesis using \<open>t = z # t'\<close> Cons by (auto simp: non_decimal_def)
    qed
  qed
qed

lemma unsigned_decimal_no_paren:
  assumes "CHR '')'' \<in> set u"
  shows "unsigned_decimal u = NaN"
proof -
  let ?ne = "\<lambda>c. c \<noteq> CHR ''e'' \<and> c \<noteq> CHR ''E''"
  let ?m = "takeWhile ?ne u" and ?x = "dropWhile ?ne u"
  have u: "u \<noteq> ''Infinity''" using assms by auto
  from assms consider (m) "CHR '')'' \<in> set ?m" | (x) "CHR '')'' \<in> set ?x"
    using set_take_drop_while [of "CHR '')''" u ?ne] by blast
  then show ?thesis
  proof cases
    case m
    then have r: "CHR '')'' \<in> set (dropWhile is_digit ?m)"
      using not_digit_paren(1) by (rule set_dropWhile_not)
    then obtain c fs where cf: "dropWhile is_digit ?m = c # fs"
      by (cases "dropWhile is_digit ?m") auto
    with r have "c \<noteq> CHR ''.'' \<or> \<not> list_all is_digit fs"
      using paren_not_all [of fs is_digit] not_digit_paren(1) by auto
    with cf u show ?thesis
      by (auto simp: unsigned_decimal_def Let_def split: option.split)
  next
    case x
    then obtain c sx where cx: "?x = c # sx" by (cases ?x) auto
    then have "\<not> ?ne c" using hd_dropWhile [of ?ne u] by (metis list.sel(1) list.distinct(1))
    with x cx have "CHR '')'' \<in> set sx" by auto
    then have "signed_integer sx = None" by (rule signed_integer_no_paren)
    with cx u show ?thesis by (simp add: unsigned_decimal_def Let_def)
  qed
qed

lemma Number_js_paren: "CHR '')'' \<in> set s \<Longrightarrow> Number_js s = NaN"
proof -
  assume "CHR '')'' \<in> set s"
  then have t: "CHR '')'' \<in> set (trim s)" using not_digit_paren(2) by (rule set_trim [rotated])
  then obtain c u where cu: "trim s = c # u" by (cases "trim s") auto
  have nd: "non_decimal (trim s) = None" using t by (rule non_decimal_no_paren)
  have ud: "unsigned_decimal (trim s) = NaN" using t by (rule unsigned_decimal_no_paren)
  show ?thesis
  proof (cases "c = CHR ''+'' \<or> c = CHR ''-''")
    case True
    with t cu have "CHR '')'' \<in> set u" by auto
    then have "unsigned_decimal u = NaN" by (rule unsigned_decimal_no_paren)
    with cu nd True show ?thesis by (auto simp: Number_js_def negate_def)
  next
    case False
    with cu nd ud show ?thesis by (simp add: Number_js_def)
  qed
qed

section \<open>The fallback combinator\<close>

text \<open>
  C9: for every success value \<open>x\<close> and every alternative, \<open>orElse\<close> of \<open>Success x\<close> is
  \<open>Success x\<close> and the alternative is not called: the result does not depend on it, and an
  alternative with an effect leaves the state as it was. When the first outcome is a
  failure the result is what the alternative returns, so two failures give the failure of
  the alternative with its diagnostic unchanged; on the sample without brackets the start
  year resolves to the diagnostic of the single-year extractor, the second one tried.
\<close>

theorem orElse_laws:
  "orElse_O that (Some x) = Some x
   \<and> orElse_E onLeft (Inr x) = Inr x
   \<and> orElse_O_st that_st (Some x) st = (Some x, st)
   \<and> orElse_E_st onLeft_st (Inr x) st = (Inr x, st)
   \<and> orElse_O that None = that ()
   \<and> orElse_E onLeft (Inl d1) = onLeft d1
   \<and> orElse_O (\<lambda>_. None) (None :: 'a option) = None
   \<and> orElse_E (\<lambda>_. Inl d2) (Inl d1 :: 'e + 'a) = (Inl d2 :: 'f + 'a)
   \<and> extractYearStart_E ''The Simpsons, 1989-2021''
       = Inl ''Cannot extract year start from: The Simpsons, 1989-2021''
   \<and> orElse_E (\<lambda>_. extractSingleYear_E ''The Simpsons, 1989-2021'')
        (extractYearStart_E ''The Simpsons, 1989-2021'')
       = Inl ''Cannot extract single year from: The Simpsons, 1989-2021''"
proof -
  have "extractYearStart_E ''The Simpsons, 1989-2021''
          = Inl ''Cannot extract year start from: The Simpsons, 1989-2021''"
    by (simp add: extractor_defs)
  moreover have "orElse_E (\<lambda>_. extractSingleYear_E ''The Simpsons, 1989-2021'')
        (extractYearStart_E ''The Simpsons, 1989-2021'')
       = Inl ''Cannot extract single year from: The Simpsons, 1989-2021''"
    by (simp add: orElse_E_def extractor_defs)
  ultimately show ?thesis
    by (simp add: orElse_O_def orElse_E_def orElse_O_st_def orElse_E_st_def)
qed

section \<open>The field extractors\<close>

lemma slice_title_ws:
  assumes "0 < indexOf s CHR ''(''" "is_ws (s ! nat (indexOf s CHR ''('' - 1))"
  shows "trim (slice s 0 (indexOf s CHR ''('' - 1)) = trim (take (nat (indexOf s CHR ''('')) s)"
proof -
  define i where "i = nat (indexOf s CHR ''('' - 1)"
  have "CHR ''('' \<in> set s" using assms(1) by (simp add: indexOf_positive_iff)
  then have lt: "indexOf s CHR ''('' < int (length s)" by (simp add: indexOf_present)
  have n: "nat (indexOf s CHR ''('') = Suc i" using assms(1) by (simp add: i_def)
  have il: "i < length s" using lt assms(1) by (simp add: i_def)
  have "slice s 0 (indexOf s CHR ''('' - 1) = take i s"
    using assms(1) by (simp add: slice_prefix i_def)
  moreover have "take (Suc i) s = take i s @ [s ! i]"
    using il by (rule take_Suc_conv_app_nth)
  ultimately show ?thesis
    using assms(2) by (simp add: n trim_snoc_ws i_def [symmetric])
qed

text \<open>
  C6, as the code has it: in both variants the title extractor succeeds exactly when the
  first \<open>(\<close> is at a position above 0, that is when there is a \<open>(\<close> and the string does
  not start with one, and fails otherwise (with the diagnostic naming the raw string in
  the \<^verbatim>\<open>Either\<close> variant). On success, when the character just before the \<open>(\<close> is
  white space, the title is the characters before the \<open>(\<close> with white space removed at
  both ends.
\<close>

theorem extractTitle_characterisation:
  "(extractTitle_O s \<noteq> None \<longleftrightarrow> 0 < indexOf s CHR ''('')
   \<and> (\<not> isl (extractTitle_E s) \<longleftrightarrow> 0 < indexOf s CHR ''('')
   \<and> (0 < indexOf s CHR ''('' \<longleftrightarrow> CHR ''('' \<in> set s \<and> take 1 s \<noteq> ''('')
   \<and> (0 < indexOf s CHR ''('' \<and> is_ws (s ! nat (indexOf s CHR ''('' - 1)) \<longrightarrow>
        extractTitle_O s = Some (trim (take (nat (indexOf s CHR ''('')) s))
        \<and> extractTitle_E s = Inr (trim (take (nat (indexOf s CHR ''('')) s)))
   \<and> (\<not> 0 < indexOf s CHR ''('' \<longrightarrow>
        extractTitle_O s = None
        \<and> extractTitle_E s = Inl (''Cannot extract title from: '' @ s))"
proof -
  have a: "extractTitle_O s \<noteq> None \<longleftrightarrow> 0 < indexOf s CHR ''(''"
    by (simp add: extractTitle_O_def Let_def)
  have b: "\<not> isl (extractTitle_E s) \<longleftrightarrow> 0 < indexOf s CHR ''(''"
    by (simp add: extractTitle_E_def Let_def)
  have c: "0 < indexOf s CHR ''('' \<longleftrightarrow> CHR ''('' \<in> set s \<and> take 1 s \<noteq> ''(''"
    by (rule indexOf_positive_iff)
  have d: "0 < indexOf s CHR ''('' \<and> is_ws (s ! nat (indexOf s CHR ''('' - 1)) \<longrightarrow>
        extractTitle_O s = Some (trim (take (nat (indexOf s CHR ''('')) s))
        \<and> extractTitle_E s = Inr (trim (take (nat (indexOf s CHR ''('')) s))"
    by (simp add: extractTitle_O_def extractTitle_E_def Let_def slice_title_ws)
  have e: "\<not> 0 < indexOf s CHR ''('' \<longrightarrow>
        extractTitle_O s = None
        \<and> extractTitle_E s = Inl (''Cannot extract title from: '' @ s)"
    by (simp add: extractTitle_O_def extractTitle_E_def Let_def)
  from a b c d e show ?thesis by blast
qed

text \<open>
  C6 at three inputs: a title followed by a space and the bracket, a string that starts
  with the bracket, and a string without one.
\<close>

theorem extractTitle_characterisation_witness:
  "indexOf ''The Office (2005-2013)'' CHR ''('' = 11
   \<and> is_ws (''The Office (2005-2013)'' ! 10)
   \<and> extractTitle_O ''The Office (2005-2013)'' = Some ''The Office''
   \<and> extractTitle_E ''The Office (2005-2013)'' = Inr ''The Office''
   \<and> extractTitle_O ''(2005-2013)'' = None
   \<and> extractTitle_E ''The Simpsons, 1989-2021''
       = Inl ''Cannot extract title from: The Simpsons, 1989-2021''"
  using extractTitle_characterisation [of "''The Office (2005-2013)''"]
    extractTitle_characterisation [of "''(2005-2013)''"]
    extractTitle_characterisation [of "''The Simpsons, 1989-2021''"]
  by (simp add: indexOf_def trim_def is_ws_def)

text \<open>
  C6, as stated, fails on a raw string that starts with a space: the characters before
  the \<open>(\<close> are \<open>'' A ''\<close>, and the title returned, \<open>''A''\<close>, is not an initial part of them,
  so it is not those characters with something removed at the end only.
\<close>

theorem extractTitle_counterexample:
  "indexOf '' A (1-2)'' CHR ''('' = 3
   \<and> take 3 '' A (1-2)'' = '' A ''
   \<and> extractTitle_O '' A (1-2)'' = Some ''A''
   \<and> extractTitle_E '' A (1-2)'' = Inr ''A''
   \<and> \<not> prefix ''A'' '' A ''"
  by (simp add: extractor_defs trim_def is_ws_def)

text \<open>
  C5 at inputs whose delimiters are in place and whose slice is not numeric: the slice
  \<open>''x''\<close> of \<open>''A (x-1)''\<close> (between positions 2 and 4), the slice \<open>''y''\<close> of
  \<open>''A (1-y)''\<close> and the slice \<open>''x''\<close> of \<open>''A (x)''\<close>. \<^verbatim>\<open>Number\<close> gives \<open>NaN\<close> on each,
  and the start-year, end-year and single-year extractors of both variants return a
  success that carries it, where a failure (\<^verbatim>\<open>none\<close>, \<^verbatim>\<open>left\<close>) is what the claim and the
  \<^verbatim>\<open>@returns\<close> comments of the extractors announce when there is no year.
\<close>

theorem year_extractors_succeed_with_NaN:
  "indexOf ''A (x-1)'' CHR ''('' = 2 \<and> indexOf ''A (x-1)'' CHR ''-'' = 4
   \<and> slice ''A (x-1)'' 3 4 = ''x'' \<and> Number_js ''x'' = NaN \<and> Number_js ''y'' = NaN
   \<and> extractYearStart_O ''A (x-1)'' = Some NaN
   \<and> extractYearStart_E ''A (x-1)'' = Inr NaN
   \<and> extractYearEnd_O ''A (1-y)'' = Some NaN
   \<and> extractYearEnd_E ''A (1-y)'' = Inr NaN
   \<and> extractSingleYear_O ''A (x)'' = Some NaN
   \<and> extractSingleYear_E ''A (x)'' = Inr NaN"
  by (simp add: extractor_defs number_defs)

text \<open>
  The delimiter tests of the two variants. The \<^verbatim>\<open>Either\<close> variant succeeds exactly when
  both delimiters are there and the second one is at least two positions after the first;
  the \<^verbatim>\<open>Option\<close> variant succeeds as soon as both are there, in any order.
\<close>

lemma extractYear_E_delimiters:
  "(\<not> isl (extractYearStart_E s)
      \<longleftrightarrow> CHR ''('' \<in> set s \<and> CHR ''-'' \<in> set s \<and> indexOf s CHR ''('' + 1 < indexOf s CHR ''-'')"
  "(\<not> isl (extractYearEnd_E s)
      \<longleftrightarrow> CHR ''-'' \<in> set s \<and> CHR '')'' \<in> set s \<and> indexOf s CHR ''-'' + 1 < indexOf s CHR '')'')"
  using indexOf_ge [of s "CHR ''(''"] indexOf_ge [of s "CHR ''-''"]
    indexOf_absent_iff [of s "CHR ''(''"] indexOf_absent_iff [of s "CHR ''-''"]
    indexOf_absent_iff [of s "CHR '')''"]
  by (auto simp: extractYearStart_E_def extractYearEnd_E_def bind_E_def Let_def)

lemma extractYear_O_delimiters:
  "extractYearStart_O s \<noteq> None \<longleftrightarrow> CHR ''('' \<in> set s \<and> CHR ''-'' \<in> set s"
  "extractYearEnd_O s \<noteq> None \<longleftrightarrow> CHR ''-'' \<in> set s \<and> CHR '')'' \<in> set s"
  by (auto simp: extractYearStart_O_def extractYearEnd_O_def Let_def indexOf_absent_iff)

text \<open>
  C4 at two inputs where the delimiters are there in the wrong order. In
  \<open>''Spider-Man (2002)''\<close> the first \<open>-\<close> (position 6) is before the first \<open>(\<close>
  (position 11): the \<^verbatim>\<open>Either\<close> start-year extractor fails, the \<^verbatim>\<open>Option\<close> one succeeds
  with \<open>0\<close>, the number of the empty slice. In \<open>''A) (1-2)''\<close> the first \<open>)\<close> (position 1)
  is before the first \<open>-\<close> (position 5), and the end-year extractors differ the same way.
\<close>

theorem extractYear_O_ignores_delimiter_order:
  "indexOf ''Spider-Man (2002)'' CHR ''-'' = 6
   \<and> indexOf ''Spider-Man (2002)'' CHR ''('' = 11
   \<and> extractYearStart_O ''Spider-Man (2002)'' = Some (Fin 0)
   \<and> extractYearStart_E ''Spider-Man (2002)''
       = Inl ''Cannot extract year start from: Spider-Man (2002)''
   \<and> indexOf ''A) (1-2)'' CHR '')'' = 1
   \<and> indexOf ''A) (1-2)'' CHR ''-'' = 5
   \<and> extractYearEnd_O ''A) (1-2)'' = Some (Fin 0)
   \<and> extractYearEnd_E ''A) (1-2)'' = Inl ''Cannot extract year end from: A) (1-2)''"
  by (simp add: extractor_defs number_defs)

section \<open>The record assembler\<close>

text \<open>
  Positions of the delimiters in a raw string built as a title, a space, a bracket and the
  fields, when the parts before a delimiter do not contain it.
\<close>

lemma range_shape_open:
  "CHR ''('' \<notin> set T \<Longrightarrow> indexOf (T @ '' ('' @ R) CHR ''('' = int (length T) + 1"
  using indexOf_first [of "CHR ''(''" "T @ '' ''" R] by simp

lemma range_shape_dash:
  "CHR ''-'' \<notin> set T \<Longrightarrow> CHR ''-'' \<notin> set S
   \<Longrightarrow> indexOf (T @ '' ('' @ S @ ''-'' @ R) CHR ''-'' = int (length T) + 2 + int (length S)"
  using indexOf_first [of "CHR ''-''" "T @ '' ('' @ S" R] by simp

lemma range_shape_close:
  "CHR '')'' \<notin> set T \<Longrightarrow> CHR '')'' \<notin> set S \<Longrightarrow> CHR '')'' \<notin> set E
   \<Longrightarrow> indexOf (T @ '' ('' @ S @ ''-'' @ E @ '')'') CHR '')''
        = int (length T) + 3 + int (length S) + int (length E)"
  using indexOf_first [of "CHR '')''" "T @ '' ('' @ S @ ''-'' @ E" "[]"] by simp

lemma single_shape_close:
  "CHR '')'' \<notin> set T \<Longrightarrow> CHR '')'' \<notin> set Y
   \<Longrightarrow> indexOf (T @ '' ('' @ Y @ '')'') CHR '')'' = int (length T) + 2 + int (length Y)"
  using indexOf_first [of "CHR '')''" "T @ '' ('' @ Y" "[]"] by simp

lemma parseShow_range_general:
  assumes T: "CHR ''('' \<notin> set T" "CHR '')'' \<notin> set T" "CHR ''-'' \<notin> set T"
    and S: "S \<noteq> []" "CHR ''-'' \<notin> set S" "CHR '')'' \<notin> set S"
    and E: "E \<noteq> []" "CHR '')'' \<notin> set E"
  shows "parseShow_O (T @ '' ('' @ S @ ''-'' @ E @ '')'')
           = Some \<lparr>title = trim T, start = Number_js S, end' = Number_js E\<rparr>
         \<and> parseShow_E (T @ '' ('' @ S @ ''-'' @ E @ '')'')
           = Inr \<lparr>title = trim T, start = Number_js S, end' = Number_js E\<rparr>"
proof -
  define raw where "raw = T @ '' ('' @ S @ ''-'' @ E @ '')''"
  have bo: "indexOf raw CHR ''('' = int (length T) + 1"
    unfolding raw_def using T(1) by (rule range_shape_open)
  have d: "indexOf raw CHR ''-'' = int (length T) + 2 + int (length S)"
    unfolding raw_def using T(3) S(2) by (rule range_shape_dash)
  have bc: "indexOf raw CHR '')'' = int (length T) + 3 + int (length S) + int (length E)"
    unfolding raw_def using T(2) S(3) E(2) by (rule range_shape_close)
  have t: "slice raw 0 (indexOf raw CHR ''('' - 1) = T"
    by (rule slice_between [where xs = "[]" and zs = "'' ('' @ S @ ''-'' @ E @ '')''"])
       (simp add: raw_def, simp_all add: bo)
  have s: "slice raw (indexOf raw CHR ''('' + 1) (indexOf raw CHR ''-'') = S"
    by (rule slice_between [where xs = "T @ '' (''" and zs = "''-'' @ E @ '')''"])
       (simp add: raw_def, simp_all add: bo d)
  have e: "slice raw (indexOf raw CHR ''-'' + 1) (indexOf raw CHR '')'') = E"
    by (rule slice_between [where xs = "T @ '' ('' @ S @ ''-''" and zs = "'')''"])
       (simp add: raw_def, simp_all add: bc d)
  have tO: "extractTitle_O raw = Some (trim T)"
    unfolding extractTitle_O_def Let_def t by (simp add: bo)
  have tE: "extractTitle_E raw = Inr (trim T)"
    unfolding extractTitle_E_def Let_def t by (simp add: bo)
  have sO: "extractYearStart_O raw = Some (Number_js S)"
    unfolding extractYearStart_O_def Let_def s by (simp add: bo d)
  have sE: "extractYearStart_E raw = Inr (Number_js S)"
    unfolding extractYearStart_E_def Let_def s using S(1) by (simp add: bo d bind_E_def)
  have eO: "extractYearEnd_O raw = Some (Number_js E)"
    unfolding extractYearEnd_O_def Let_def e by (simp add: bc d)
  have eE: "extractYearEnd_E raw = Inr (Number_js E)"
    unfolding extractYearEnd_E_def Let_def e using E(1) by (simp add: bc d bind_E_def)
  have "parseShow_O raw = Some \<lparr>title = trim T, start = Number_js S, end' = Number_js E\<rparr>"
    unfolding parseShow_O_def tO sO eO by (simp add: orElse_O_def)
  moreover
  have "parseShow_E raw = Inr \<lparr>title = trim T, start = Number_js S, end' = Number_js E\<rparr>"
    unfolding parseShow_E_def tE sE eE by (simp add: orElse_E_def bind_E_def)
  ultimately show ?thesis unfolding raw_def by (rule conjI)
qed

lemma parseShow_single_general:
  assumes T: "CHR ''('' \<notin> set T" "CHR '')'' \<notin> set T" "CHR ''-'' \<notin> set T"
    and Y: "Y \<noteq> []" "CHR ''-'' \<notin> set Y" "CHR '')'' \<notin> set Y"
  shows "parseShow_O (T @ '' ('' @ Y @ '')'')
           = Some \<lparr>title = trim T, start = Number_js Y, end' = Number_js Y\<rparr>
         \<and> parseShow_E (T @ '' ('' @ Y @ '')'')
           = Inr \<lparr>title = trim T, start = Number_js Y, end' = Number_js Y\<rparr>"
proof -
  define raw where "raw = T @ '' ('' @ Y @ '')''"
  have bo: "indexOf raw CHR ''('' = int (length T) + 1"
    unfolding raw_def using T(1) by (rule range_shape_open)
  have d: "indexOf raw CHR ''-'' = - 1"
    unfolding raw_def using T(3) Y(2) by (simp add: indexOf_absent)
  have bc: "indexOf raw CHR '')'' = int (length T) + 2 + int (length Y)"
    unfolding raw_def using T(2) Y(3) by (rule single_shape_close)
  have t: "slice raw 0 (indexOf raw CHR ''('' - 1) = T"
    by (rule slice_between [where xs = "[]" and zs = "'' ('' @ Y @ '')''"])
       (simp add: raw_def, simp_all add: bo)
  have y: "slice raw (indexOf raw CHR ''('' + 1) (indexOf raw CHR '')'') = Y"
    by (rule slice_between [where xs = "T @ '' (''" and zs = "'')''"])
       (simp add: raw_def, simp_all add: bo bc)
  have tO: "extractTitle_O raw = Some (trim T)"
    unfolding extractTitle_O_def Let_def t by (simp add: bo)
  have tE: "extractTitle_E raw = Inr (trim T)"
    unfolding extractTitle_E_def Let_def t by (simp add: bo)
  have sO: "extractYearStart_O raw = None"
    unfolding extractYearStart_O_def Let_def by (simp add: d)
  have sE: "extractYearStart_E raw = Inl (''Cannot extract year start from: '' @ raw)"
    unfolding extractYearStart_E_def Let_def by (simp add: bo d bind_E_def)
  have eO: "extractYearEnd_O raw = None"
    unfolding extractYearEnd_O_def Let_def by (simp add: d)
  have eE: "extractYearEnd_E raw = Inl (''Cannot extract year end from: '' @ raw)"
    unfolding extractYearEnd_E_def Let_def by (simp add: d bind_E_def)
  have yO: "extractSingleYear_O raw = Some (Number_js Y)"
    unfolding extractSingleYear_O_def Let_def y using Y(1) by (simp add: bo bc d)
  have yE: "extractSingleYear_E raw = Inr (Number_js Y)"
    unfolding extractSingleYear_E_def Let_def y using Y(1) by (simp add: bo bc d bind_E_def)
  have "parseShow_O raw = Some \<lparr>title = trim T, start = Number_js Y, end' = Number_js Y\<rparr>"
    unfolding parseShow_O_def tO sO eO yO by (simp add: orElse_O_def)
  moreover
  have "parseShow_E raw = Inr \<lparr>title = trim T, start = Number_js Y, end' = Number_js Y\<rparr>"
    unfolding parseShow_E_def tE sE eE yE by (simp add: orElse_E_def bind_E_def)
  ultimately show ?thesis unfolding raw_def by (rule conjI)
qed

text \<open>
  C2, as the code has it: for a raw string \<open>T (S-E)\<close> with a non-empty trimmed title \<open>T\<close>
  that contains none of \<open>(\<close>, \<open>)\<close> and \<open>-\<close>, a non-empty numeric \<open>S\<close> without \<open>-\<close> and a
  non-empty numeric \<open>E\<close>, \<open>parseShow\<close> succeeds in both variants with the record of title
  \<open>T\<close>, start \<^verbatim>\<open>Number(S)\<close> and end \<^verbatim>\<open>Number(E)\<close>. Numeric means that \<^verbatim>\<open>Number\<close> is not
  \<open>NaN\<close>.
\<close>

theorem parseShow_bracketed_range:
  assumes "T \<noteq> []" "trim T = T"
    and "CHR ''('' \<notin> set T" "CHR '')'' \<notin> set T" "CHR ''-'' \<notin> set T"
    and "S \<noteq> []" "Number_js S \<noteq> NaN" "CHR ''-'' \<notin> set S"
    and "E \<noteq> []" "Number_js E \<noteq> NaN"
  shows "parseShow_O (T @ '' ('' @ S @ ''-'' @ E @ '')'')
           = Some \<lparr>title = T, start = Number_js S, end' = Number_js E\<rparr>
         \<and> parseShow_E (T @ '' ('' @ S @ ''-'' @ E @ '')'')
           = Inr \<lparr>title = T, start = Number_js S, end' = Number_js E\<rparr>"
proof -
  from assms(7) have "CHR '')'' \<notin> set S" using Number_js_paren [of S] by blast
  moreover from assms(10) have "CHR '')'' \<notin> set E" using Number_js_paren [of E] by blast
  ultimately show ?thesis
    using parseShow_range_general [of T S E] assms by simp
qed

text \<open>C2 at the first sample: \<open>T\<close> is The Office, \<open>S\<close> is 2005 and \<open>E\<close> is 2013.\<close>

theorem parseShow_bracketed_range_witness:
  "trim ''The Office'' = ''The Office''
   \<and> Number_js ''2005'' = Fin 2005 \<and> Number_js ''2013'' = Fin 2013
   \<and> parseShow_O ''The Office (2005-2013)''
       = Some \<lparr>title = ''The Office'', start = Fin 2005, end' = Fin 2013\<rparr>
   \<and> parseShow_E ''The Office (2005-2013)''
       = Inr \<lparr>title = ''The Office'', start = Fin 2005, end' = Fin 2013\<rparr>"
  using parseShow_bracketed_range [of "''The Office''" "''2005''" "''2013''"]
  by (simp add: number_defs)

text \<open>
  C2, as stated, fails on a title with a hyphen: \<open>T\<close> is Spider-Man, trimmed and not
  empty, \<open>S\<close> and \<open>E\<close> are the numeric 2002 and 2004. The first \<open>-\<close> of the raw string is
  the one of the title, so the \<^verbatim>\<open>Either\<close> variant fails and the \<^verbatim>\<open>Option\<close> variant returns
  a record whose years are \<open>0\<close> and \<open>NaN\<close>.
\<close>

theorem parseShow_bracketed_range_counterexample:
  "trim ''Spider-Man'' = ''Spider-Man''
   \<and> Number_js ''2002'' = Fin 2002 \<and> Number_js ''2004'' = Fin 2004
   \<and> parseShow_O (''Spider-Man'' @ '' ('' @ ''2002'' @ ''-'' @ ''2004'' @ '')'')
       = Some \<lparr>title = ''Spider-Man'', start = Fin 0, end' = NaN\<rparr>
   \<and> parseShow_E (''Spider-Man'' @ '' ('' @ ''2002'' @ ''-'' @ ''2004'' @ '')'')
       = Inl ''Cannot extract single year from: Spider-Man (2002-2004)''"
  by (simp add: parseShow_defs extractor_defs number_defs)

text \<open>
  C3, as the code has it: for a raw string \<open>T (Y)\<close> without a hyphen, where \<open>T\<close> contains
  neither \<open>(\<close> nor \<open>)\<close> and \<open>Y\<close> is not empty and numeric (\<^verbatim>\<open>Number\<close> is not \<open>NaN\<close>),
  \<open>parseShow\<close> succeeds in both variants, start and end both carry \<^verbatim>\<open>Number(Y)\<close> (from the
  single-year extractor, after the start-year and end-year extractors have failed) and the
  title is \<open>T\<close> trimmed. Game of Thrones (2011) parses to the title Game of Thrones with
  start and end 2011.
\<close>

theorem parseShow_single_year:
  assumes "CHR ''-'' \<notin> set (T @ '' ('' @ Y @ '')'')"
    and "CHR ''('' \<notin> set T" "CHR '')'' \<notin> set T"
    and "Y \<noteq> []" "Number_js Y \<noteq> NaN"
  shows "parseShow_O (T @ '' ('' @ Y @ '')'')
           = Some \<lparr>title = trim T, start = Number_js Y, end' = Number_js Y\<rparr>
         \<and> parseShow_E (T @ '' ('' @ Y @ '')'')
           = Inr \<lparr>title = trim T, start = Number_js Y, end' = Number_js Y\<rparr>
         \<and> parseShow_O ''Game of Thrones (2011)''
           = Some \<lparr>title = ''Game of Thrones'', start = Fin 2011, end' = Fin 2011\<rparr>
         \<and> parseShow_E ''Game of Thrones (2011)''
           = Inr \<lparr>title = ''Game of Thrones'', start = Fin 2011, end' = Fin 2011\<rparr>"
proof -
  from assms(1) have "CHR ''-'' \<notin> set T" "CHR ''-'' \<notin> set Y" by simp_all
  moreover from assms(5) have "CHR '')'' \<notin> set Y" using Number_js_paren [of Y] by blast
  ultimately have "parseShow_O (T @ '' ('' @ Y @ '')'')
           = Some \<lparr>title = trim T, start = Number_js Y, end' = Number_js Y\<rparr>
         \<and> parseShow_E (T @ '' ('' @ Y @ '')'')
           = Inr \<lparr>title = trim T, start = Number_js Y, end' = Number_js Y\<rparr>"
    using assms by (intro parseShow_single_general)
  moreover have "parseShow_O ''Game of Thrones (2011)''
           = Some \<lparr>title = ''Game of Thrones'', start = Fin 2011, end' = Fin 2011\<rparr>"
    by (simp add: parseShow_defs extractor_defs number_defs)
  moreover have "parseShow_E ''Game of Thrones (2011)''
           = Inr \<lparr>title = ''Game of Thrones'', start = Fin 2011, end' = Fin 2011\<rparr>"
    by (simp add: parseShow_defs extractor_defs number_defs)
  ultimately show ?thesis by blast
qed

text \<open>C3 at a single year: \<open>T\<close> is Friends and \<open>Y\<close> is 1994.\<close>

theorem parseShow_single_year_witness:
  "Number_js ''1994'' = Fin 1994
   \<and> parseShow_O ''Friends (1994)''
     = Some \<lparr>title = ''Friends'', start = Fin 1994, end' = Fin 1994\<rparr>
   \<and> parseShow_E ''Friends (1994)''
     = Inr \<lparr>title = ''Friends'', start = Fin 1994, end' = Fin 1994\<rparr>"
  using parseShow_single_year [of "''Friends''" "''1994''"]
  by (simp add: number_defs)

text \<open>
  C3, as stated, fails on a title with a closing bracket: the raw string \<open>A) (2011)\<close> has
  the shape, with \<open>T\<close> = \<open>A)\<close> and \<open>Y\<close> = 2011, and no hyphen; its first \<open>)\<close> is before its
  first \<open>(\<close>, the single-year extractor fails and so does \<open>parseShow\<close>, in both variants.
\<close>

theorem parseShow_single_year_counterexample:
  "CHR ''-'' \<notin> set (''A)'' @ '' ('' @ ''2011'' @ '')'')
   \<and> parseShow_O (''A)'' @ '' ('' @ ''2011'' @ '')'') = None
   \<and> parseShow_E (''A)'' @ '' ('' @ ''2011'' @ '')'')
       = Inl ''Cannot extract single year from: A) (2011)''"
  by (simp add: parseShow_defs extractor_defs number_defs)

section \<open>The aggregator\<close>

lemma addOrResign_O_None [simp]: "addOrResign_O None x = None"
  by (simp add: addOrResign_O_def)

lemma addOrResign_O_Some [simp]:
  "addOrResign_O (Some acc) x = (case x of None \<Rightarrow> None | Some p \<Rightarrow> Some (acc @ [p]))"
  by (simp add: addOrResign_O_def split: option.split)

lemma addOrResign_E_Inl [simp]: "addOrResign_E (Inl d) x = Inl d"
  by (simp add: addOrResign_E_def bind_E_def)

lemma addOrResign_E_Inr [simp]:
  "addOrResign_E (Inr acc) x = (case x of Inl d \<Rightarrow> Inl d | Inr p \<Rightarrow> Inr (acc @ [p]))"
  by (simp add: addOrResign_E_def bind_E_def split: sum.split)

text \<open>An accumulator that has failed stays as it is, whatever follows.\<close>

lemma foldl_addOrResign_O_None: "foldl addOrResign_O None xs = None"
  by (induction xs) simp_all

lemma foldl_addOrResign_E_Inl: "foldl addOrResign_E (Inl d) xs = Inl d"
  by (induction xs) simp_all

text \<open>The fold succeeds exactly on a list of successes, and appends their values in order.\<close>

lemma foldl_addOrResign_O_Some:
  "foldl addOrResign_O (Some acc) xs = Some rs \<longleftrightarrow> (\<exists>ys. xs = map Some ys \<and> rs = acc @ ys)"
proof (induction xs arbitrary: acc)
  case Nil
  then show ?case by auto
next
  case (Cons x xs)
  show ?case
  proof (cases x)
    case None
    then show ?thesis by (auto simp: foldl_addOrResign_O_None)
  next
    case (Some p)
    have "(\<exists>ys. xs = map Some ys \<and> rs = (acc @ [p]) @ ys)
            \<longleftrightarrow> (\<exists>zs. Some p # xs = map Some zs \<and> rs = acc @ zs)"
      by (auto simp: Cons_eq_map_conv)
    with Some Cons.IH [of "acc @ [p]"] show ?thesis by simp
  qed
qed

lemma foldl_addOrResign_E_Inr:
  "foldl addOrResign_E (Inr acc) xs = Inr rs \<longleftrightarrow> (\<exists>ys. xs = map Inr ys \<and> rs = acc @ ys)"
proof (induction xs arbitrary: acc)
  case Nil
  then show ?case by auto
next
  case (Cons x xs)
  show ?case
  proof (cases x)
    case (Inl d)
    then show ?thesis by (auto simp: foldl_addOrResign_E_Inl)
  next
    case (Inr p)
    have "(\<exists>ys. xs = map Inr ys \<and> rs = (acc @ [p]) @ ys)
            \<longleftrightarrow> (\<exists>zs. Inr p # xs = map Inr zs \<and> rs = acc @ zs)"
      by (auto simp: Cons_eq_map_conv)
    with Inr Cons.IH [of "acc @ [p]"] show ?thesis by simp
  qed
qed

text \<open>The result of the fold, by the first item that fails.\<close>

lemma foldl_addOrResign_E_find:
  "foldl addOrResign_E (Inr acc) (map f raws) =
     (case find (\<lambda>r. isl (f r)) raws of
        None \<Rightarrow> Inr (acc @ map (\<lambda>r. projr (f r)) raws)
      | Some r \<Rightarrow> Inl (projl (f r)))"
proof (induction raws arbitrary: acc)
  case Nil
  then show ?case by simp
next
  case (Cons r raws)
  show ?case
  proof (cases "f r")
    case (Inl d)
    then show ?thesis by (simp add: foldl_addOrResign_E_Inl)
  next
    case (Inr p)
    with Cons.IH [of "acc @ [p]"] show ?thesis by (simp split: option.split)
  qed
qed

lemma foldl_addOrResign_O_find:
  "foldl addOrResign_O (Some acc) (map f raws) =
     (case find (\<lambda>r. f r = None) raws of
        None \<Rightarrow> Some (acc @ map (\<lambda>r. the (f r)) raws)
      | Some r \<Rightarrow> None)"
proof (induction raws arbitrary: acc)
  case Nil
  then show ?case by simp
next
  case (Cons r raws)
  show ?case
  proof (cases "f r")
    case None
    then show ?thesis by (simp add: foldl_addOrResign_O_None)
  next
    case (Some p)
    with Cons.IH [of "acc @ [p]"] show ?thesis by (simp split: option.split)
  qed
qed

lemma parseShows_O_Some: "parseShows_O raws = Some rs \<longleftrightarrow> map parseShow_O raws = map Some rs"
  by (auto simp: parseShows_O_def foldl_addOrResign_O_Some)

lemma parseShows_E_Inr: "parseShows_E raws = Inr rs \<longleftrightarrow> map parseShow_E raws = map Inr rs"
  by (auto simp: parseShows_E_def foldl_addOrResign_E_Inr)

lemma parseShows_E_find:
  "parseShows_E raws =
     (case find (\<lambda>r. isl (parseShow_E r)) raws of
        None \<Rightarrow> Inr (map (\<lambda>r. projr (parseShow_E r)) raws)
      | Some r \<Rightarrow> Inl (projl (parseShow_E r)))"
  by (simp add: parseShows_E_def foldl_addOrResign_E_find split: option.split)

lemma parseShows_O_find:
  "parseShows_O raws =
     (case find (\<lambda>r. parseShow_O r = None) raws of
        None \<Rightarrow> Some (map (\<lambda>r. the (parseShow_O r)) raws)
      | Some r \<Rightarrow> None)"
  by (simp add: parseShows_O_def foldl_addOrResign_O_find split: option.split)

text \<open>The five samples, parsed one by one: the fourth has no bracket and fails.\<close>

lemma parse_samples_O:
  "map parseShow_O rawShows =
     [Some \<lparr>title = ''The Office'', start = Fin 2005, end' = Fin 2013\<rparr>,
      Some \<lparr>title = ''Breaking Bad'', start = Fin 2008, end' = Fin 2013\<rparr>,
      Some \<lparr>title = ''Friends'', start = Fin 1994, end' = Fin 2004\<rparr>,
      None,
      Some \<lparr>title = ''Game of Thrones'', start = Fin 2011, end' = Fin 2011\<rparr>]"
  by (simp add: rawShows_def parseShow_defs extractor_defs number_defs)

lemma parse_samples_E:
  "map parseShow_E rawShows =
     [Inr \<lparr>title = ''The Office'', start = Fin 2005, end' = Fin 2013\<rparr>,
      Inr \<lparr>title = ''Breaking Bad'', start = Fin 2008, end' = Fin 2013\<rparr>,
      Inr \<lparr>title = ''Friends'', start = Fin 1994, end' = Fin 2004\<rparr>,
      Inl ''Cannot extract title from: The Simpsons, 1989-2021'',
      Inr \<lparr>title = ''Game of Thrones'', start = Fin 2011, end' = Fin 2011\<rparr>]"
  by (simp add: rawShows_def parseShow_defs extractor_defs number_defs)

lemma parseShows_samples:
  "parseShows_O rawShows = None"
  "parseShows_E rawShows = Inl ''Cannot extract title from: The Simpsons, 1989-2021''"
  by (simp_all add: parseShows_O_def parseShows_E_def parse_samples_O parse_samples_E)

text \<open>
  C1: for every list of raw strings, \<open>parseShows\<close> is a success exactly when \<open>parseShow\<close>
  succeeds on every element, and the success then holds the parsed records in input order,
  one for each raw string. When an element fails the result is a failure, in the
  \<^verbatim>\<open>Either\<close> variant the failure of the first element that fails, with its diagnostic; an
  accumulator that has failed stays the same failure whatever is folded in after it. On
  the five samples the fourth item fails, the other four succeed, and the result is a
  failure.
\<close>

theorem parseShows_all_or_nothing:
  "(parseShows_O raws = Some rs \<longleftrightarrow> map parseShow_O raws = map Some rs)
   \<and> (parseShows_E raws = Inr rs \<longleftrightarrow> map parseShow_E raws = map Inr rs)
   \<and> parseShows_O raws =
        (case find (\<lambda>r. parseShow_O r = None) raws of
           None \<Rightarrow> Some (map (\<lambda>r. the (parseShow_O r)) raws)
         | Some r \<Rightarrow> None)
   \<and> parseShows_E raws =
        (case find (\<lambda>r. isl (parseShow_E r)) raws of
           None \<Rightarrow> Inr (map (\<lambda>r. projr (parseShow_E r)) raws)
         | Some r \<Rightarrow> Inl (projl (parseShow_E r)))
   \<and> foldl addOrResign_O None items_O = None
   \<and> foldl addOrResign_E (Inl d) items_E = Inl d
   \<and> map (\<lambda>r. parseShow_O r \<noteq> None) rawShows = [True, True, True, False, True]
   \<and> map (\<lambda>r. \<not> isl (parseShow_E r)) rawShows = [True, True, True, False, True]
   \<and> parseShows_O rawShows = None
   \<and> parseShows_E rawShows = Inl ''Cannot extract title from: The Simpsons, 1989-2021''"
proof -
  have "map (\<lambda>r. parseShow_O r \<noteq> None) rawShows
          = map (\<lambda>x. x \<noteq> None) (map parseShow_O rawShows)"
    by simp
  then have a: "map (\<lambda>r. parseShow_O r \<noteq> None) rawShows = [True, True, True, False, True]"
    by (simp only: parse_samples_O) simp
  have "map (\<lambda>r. \<not> isl (parseShow_E r)) rawShows
          = map (\<lambda>x. \<not> isl x) (map parseShow_E rawShows)"
    by simp
  then have b: "map (\<lambda>r. \<not> isl (parseShow_E r)) rawShows = [True, True, True, False, True]"
    by (simp only: parse_samples_E) simp
  show ?thesis
    using parseShows_O_Some [of raws rs] parseShows_E_Inr [of raws rs]
      parseShows_O_find [of raws] parseShows_E_find [of raws]
      foldl_addOrResign_O_None [of items_O] foldl_addOrResign_E_Inl [of d items_E]
      a b parseShows_samples
    by blast
qed

text \<open>C1 at the first two samples: both parse, and the result holds both in input order.\<close>

theorem parseShows_all_or_nothing_witness:
  "parseShows_O [''The Office (2005-2013)'', ''Breaking Bad (2008-2013)'']
     = Some [\<lparr>title = ''The Office'', start = Fin 2005, end' = Fin 2013\<rparr>,
             \<lparr>title = ''Breaking Bad'', start = Fin 2008, end' = Fin 2013\<rparr>]
   \<and> parseShows_E [''The Office (2005-2013)'', ''Breaking Bad (2008-2013)'']
     = Inr [\<lparr>title = ''The Office'', start = Fin 2005, end' = Fin 2013\<rparr>,
            \<lparr>title = ''Breaking Bad'', start = Fin 2008, end' = Fin 2013\<rparr>]"
proof -
  note inst = parseShows_all_or_nothing
    [of "[''The Office (2005-2013)'', ''Breaking Bad (2008-2013)'']"
        "[\<lparr>title = ''The Office'', start = Fin 2005, end' = Fin 2013\<rparr>,
          \<lparr>title = ''Breaking Bad'', start = Fin 2008, end' = Fin 2013\<rparr>]"]
  show ?thesis
    using inst [THEN conjunct1] inst [THEN conjunct2, THEN conjunct1]
    by (simp add: parseShow_defs extractor_defs number_defs)
qed

section \<open>The sorter\<close>

text \<open>
  The joined order of \<^verbatim>\<open>sortBy([byPeriod])\<close> is \<open>byPeriod\<close> itself. Whatever the
  comparator answers, the sort permutes its input. On records with safe years every key
  is finite, \<open>byPeriod\<close> is the order of the keys, and sorting with it is the library's
  stable sort on the key \<open>end - start\<close>.
\<close>

lemma Ord_concat_empty: "Ord_concat Ord_empty ord = ord"
  by (simp add: Ord_concat_def Ord_empty_def)

lemma mset_insort_cmp: "mset (insort_cmp cmp x ys) = add_mset x (mset ys)"
  by (induction ys) simp_all

lemma mset_sort_cmp: "mset (sort_cmp cmp xs) = mset xs"
  by (induction xs) (simp_all add: sort_cmp_def mset_insort_cmp)

lemma safe_year_Fin: "safe_year v \<Longrightarrow> v = Fin (fin_val v)"
  by (cases v) (simp_all add: safe_year_def fin_val_def)

lemma safe_show_duration:
  "safe_show s \<Longrightarrow> js_sub (end' s) (start s) = Fin (fin_val (end' s) - fin_val (start s))"
proof -
  assume "safe_show s"
  then obtain p q where "start s = Fin p" "end' s = Fin q"
    by (auto simp: safe_show_def safe_year_def split: jsnum.splits)
  then show ?thesis by (simp add: fin_val_def)
qed

lemma js_le_Fin: "js_le (Fin p) (Fin q) \<longleftrightarrow> p \<le> q"
  by (auto simp: js_le_def)

lemma safe_show_key:
  "safe_show s \<Longrightarrow> js_sub (end' s) (start s) = Fin (fin_val (js_sub (end' s) (start s)))"
  by (simp add: safe_show_duration fin_val_def)

lemma byPeriod_le:
  assumes "safe_show x" "safe_show y"
  shows "byPeriod x y \<le> 0
           \<longleftrightarrow> fin_val (js_sub (end' x) (start x)) \<le> fin_val (js_sub (end' y) (start y))"
  using assms by (auto simp: byPeriod_def contramap_def N_Ord_def safe_show_duration fin_val_def)

lemma insort_cmp_byPeriod:
  "safe_show x \<Longrightarrow> list_all safe_show ys
   \<Longrightarrow> insort_cmp byPeriod x ys = insort_key (\<lambda>s. fin_val (js_sub (end' s) (start s))) x ys"
  by (induction ys) (simp_all add: byPeriod_le)

lemma sort_cmp_byPeriod:
  "list_all safe_show xs
   \<Longrightarrow> sort_cmp byPeriod xs = sort_key (\<lambda>s. fin_val (js_sub (end' s) (start s))) xs"
proof (induction xs)
  case Nil
  show ?case by (simp add: sort_cmp_def)
next
  case (Cons x xs)
  then have ih: "sort_cmp byPeriod xs = sort_key (\<lambda>s. fin_val (js_sub (end' s) (start s))) xs"
    and x: "safe_show x" and xs: "list_all safe_show xs" by simp_all
  from xs have "list_all safe_show (sort_key (\<lambda>s. fin_val (js_sub (end' s) (start s))) xs)"
    by (simp add: list_all_iff)
  with x have "insort_cmp byPeriod x (sort_key (\<lambda>s. fin_val (js_sub (end' s) (start s))) xs)
      = insort_key (\<lambda>s. fin_val (js_sub (end' s) (start s))) x
          (sort_key (\<lambda>s. fin_val (js_sub (end' s) (start s))) xs)"
    by (rule insort_cmp_byPeriod)
  then show ?case using ih by (simp add: sort_cmp_def sort_key_def)
qed

lemma sortShows_sort_key:
  "list_all safe_show xs
   \<Longrightarrow> sortShows xs = rev (sort_key (\<lambda>s. fin_val (js_sub (end' s) (start s))) xs)"
  by (simp add: sortShows_def sortBy_def Ord_concat_empty sort_cmp_byPeriod)

lemma sortShows_descending:
  assumes "list_all safe_show xs"
  shows "sorted_wrt (\<lambda>a b. js_le (js_sub (end' b) (start b)) (js_sub (end' a) (start a)))
           (sortShows xs)"
proof -
  let ?k = "\<lambda>s. fin_val (js_sub (end' s) (start s))"
  have "sorted (map ?k (sort_key ?k xs))" by (rule sorted_sort_key)
  then have "sorted_wrt (\<lambda>a b. ?k a \<le> ?k b) (sort_key ?k xs)"
    by (simp add: sorted_wrt_map)
  moreover have "\<And>a b. a \<in> set (sort_key ?k xs) \<Longrightarrow> b \<in> set (sort_key ?k xs) \<Longrightarrow> ?k a \<le> ?k b
      \<Longrightarrow> js_le (js_sub (end' a) (start a)) (js_sub (end' b) (start b))"
  proof -
    fix a b assume "a \<in> set (sort_key ?k xs)" "b \<in> set (sort_key ?k xs)" and le: "?k a \<le> ?k b"
    with assms have "safe_show a" "safe_show b" by (simp_all add: list_all_iff)
    then have "js_sub (end' a) (start a) = Fin (?k a)" "js_sub (end' b) (start b) = Fin (?k b)"
      by (simp_all add: safe_show_key [symmetric])
    with le show "js_le (js_sub (end' a) (start a)) (js_sub (end' b) (start b))"
      by (metis js_le_Fin)
  qed
  ultimately have "sorted_wrt (\<lambda>a b. js_le (js_sub (end' a) (start a)) (js_sub (end' b) (start b)))
      (sort_key ?k xs)"
    by (rule sorted_wrt_mono_rel [rotated]) 
  then show ?thesis using assms by (simp add: sortShows_sort_key sorted_wrt_rev)
qed

lemma filter_duration:
  assumes "list_all safe_show ys"
  shows "filter (\<lambda>s. js_sub (end' s) (start s) = k) ys
           = (if k = Fin (fin_val k)
              then filter (\<lambda>s. fin_val (js_sub (end' s) (start s)) = fin_val k) ys else [])"
proof -
  have "\<And>s. s \<in> set ys \<Longrightarrow> (js_sub (end' s) (start s) = k)
          = (k = Fin (fin_val k) \<and> fin_val (js_sub (end' s) (start s)) = fin_val k)"
  proof -
    fix s assume "s \<in> set ys"
    with assms have "safe_show s" by (simp add: list_all_iff)
    then have "js_sub (end' s) (start s) = Fin (fin_val (js_sub (end' s) (start s)))"
      by (rule safe_show_key)
    then show "(js_sub (end' s) (start s) = k)
          = (k = Fin (fin_val k) \<and> fin_val (js_sub (end' s) (start s)) = fin_val k)"
      by (metis jsnum.inject)
  qed
  then have "filter (\<lambda>s. js_sub (end' s) (start s) = k) ys
      = filter (\<lambda>s. k = Fin (fin_val k) \<and> fin_val (js_sub (end' s) (start s)) = fin_val k) ys"
    by (rule filter_cong [OF refl])
  then show ?thesis by simp
qed

lemma sortShows_equal_keys:
  assumes "list_all safe_show xs"
  shows "filter (\<lambda>s. js_sub (end' s) (start s) = k) (sortShows xs)
     = rev (filter (\<lambda>s. js_sub (end' s) (start s) = k) xs)"
proof -
  from assms have "list_all safe_show (sortShows xs)"
    by (simp add: sortShows_sort_key list_all_iff)
  then show ?thesis
    using assms
    by (simp add: filter_duration) (simp add: sortShows_sort_key rev_filter [symmetric] sort_key_stable)
qed

lemma sortShows_sample:
  "sortShows shows' =
     [\<lparr>title = ''The Simpsons'', start = Fin 1989, end' = Fin 2021\<rparr>,
      \<lparr>title = ''Friends'', start = Fin 1994, end' = Fin 2004\<rparr>,
      \<lparr>title = ''The Office'', start = Fin 2005, end' = Fin 2013\<rparr>,
      \<lparr>title = ''Breaking Bad'', start = Fin 2008, end' = Fin 2013\<rparr>]"
  by (simp add: sortShows_def sortBy_def Ord_concat_empty sort_cmp_def shows'_def
      byPeriod_def contramap_def N_Ord_def)

lemma safe_sample: "list_all safe_show shows'"
  by (simp add: shows'_def safe_show_def safe_year_def)

text \<open>
  C7, as the code has it: for every list of records whose years are integers of magnitude
  at most \<open>2 ^ 52\<close>, \<open>sortShows\<close> orders the records by the key \<open>end - start\<close>, largest
  first; it is the stable ascending sort by that key followed by a reversal; and the four
  sample records, of durations 8, 5, 10 and 32, come out as 32, 10, 8, 5: The Simpsons,
  Friends, The Office, Breaking Bad.
\<close>

theorem sortShows_orders_by_duration_descending:
  assumes "list_all safe_show xs"
  shows "sorted_wrt (\<lambda>a b. js_le (js_sub (end' b) (start b)) (js_sub (end' a) (start a)))
           (sortShows xs)
   \<and> sortShows xs = rev (sort_key (\<lambda>s. fin_val (js_sub (end' s) (start s))) xs)
   \<and> list_all safe_show shows'
   \<and> map (\<lambda>s. js_sub (end' s) (start s)) shows' = [Fin 8, Fin 5, Fin 10, Fin 32]
   \<and> map (\<lambda>s. js_sub (end' s) (start s)) (sortShows shows') = [Fin 32, Fin 10, Fin 8, Fin 5]
   \<and> map (\<lambda>s. (start s, end' s)) (sortShows shows')
       = [(Fin 1989, Fin 2021), (Fin 1994, Fin 2004), (Fin 2005, Fin 2013), (Fin 2008, Fin 2013)]"
proof -
  have "map (\<lambda>s. js_sub (end' s) (start s)) shows' = [Fin 8, Fin 5, Fin 10, Fin 32]"
    by (simp add: shows'_def)
  moreover
  have "map (\<lambda>s. js_sub (end' s) (start s)) (sortShows shows') = [Fin 32, Fin 10, Fin 8, Fin 5]"
    by (simp add: sortShows_sample)
  moreover have "map (\<lambda>s. (start s, end' s)) (sortShows shows')
       = [(Fin 1989, Fin 2021), (Fin 1994, Fin 2004), (Fin 2005, Fin 2013), (Fin 2008, Fin 2013)]"
    by (simp add: sortShows_sample)
  ultimately show ?thesis
    using sortShows_descending [OF assms] sortShows_sort_key [OF assms] safe_sample by blast
qed

text \<open>C7 at two records of durations 3 and 7: the longer one comes first.\<close>

theorem sortShows_orders_by_duration_descending_witness:
  "safe_show \<lparr>title = ''A'', start = Fin 2000, end' = Fin 2003\<rparr>
   \<and> safe_show \<lparr>title = ''B'', start = Fin 2001, end' = Fin 2008\<rparr>
   \<and> sortShows [\<lparr>title = ''A'', start = Fin 2000, end' = Fin 2003\<rparr>,
                \<lparr>title = ''B'', start = Fin 2001, end' = Fin 2008\<rparr>]
     = [\<lparr>title = ''B'', start = Fin 2001, end' = Fin 2008\<rparr>,
        \<lparr>title = ''A'', start = Fin 2000, end' = Fin 2003\<rparr>]
   \<and> js_le (js_sub (Fin 2003) (Fin 2000)) (js_sub (Fin 2008) (Fin 2001))"
  using sortShows_orders_by_duration_descending
    [of "[\<lparr>title = ''A'', start = Fin 2000, end' = Fin 2003\<rparr>,
          \<lparr>title = ''B'', start = Fin 2001, end' = Fin 2008\<rparr>]"]
  by (simp add: safe_show_def safe_year_def fin_val_def js_le_def)

text \<open>
  C7, as stated, fails on a record whose years are \<open>NaN\<close>, as \<open>parseShow\<close> returns for
  \<open>''B (x-y)''\<close>: \<open>byPeriod\<close> answers 0 on the two records in both directions, the stable
  sort keeps them as given, the reversal puts \<open>B\<close> first, and the duration of \<open>B\<close>,
  \<open>NaN\<close>, is not greater than or equal to the duration 1 of \<open>A\<close> that follows it.
\<close>

theorem sortShows_descending_counterexample:
  "parseShow_O ''B (x-y)'' = Some \<lparr>title = ''B'', start = NaN, end' = NaN\<rparr>
   \<and> byPeriod \<lparr>title = ''A'', start = Fin 2000, end' = Fin 2001\<rparr>
        \<lparr>title = ''B'', start = NaN, end' = NaN\<rparr> = 0
   \<and> byPeriod \<lparr>title = ''B'', start = NaN, end' = NaN\<rparr>
        \<lparr>title = ''A'', start = Fin 2000, end' = Fin 2001\<rparr> = 0
   \<and> sortShows [\<lparr>title = ''A'', start = Fin 2000, end' = Fin 2001\<rparr>,
                \<lparr>title = ''B'', start = NaN, end' = NaN\<rparr>]
     = [\<lparr>title = ''B'', start = NaN, end' = NaN\<rparr>,
        \<lparr>title = ''A'', start = Fin 2000, end' = Fin 2001\<rparr>]
   \<and> js_sub NaN NaN = NaN \<and> js_sub (Fin 2001) (Fin 2000) = Fin 1
   \<and> \<not> js_le (Fin 1) NaN"
proof -
  have "parseShow_O ''B (x-y)'' = Some \<lparr>title = ''B'', start = NaN, end' = NaN\<rparr>"
    by (simp add: parseShow_defs extractor_defs number_defs)
  then show ?thesis
    by (simp add: sortShows_def sortBy_def Ord_concat_empty sort_cmp_def
        byPeriod_def contramap_def N_Ord_def js_le_def)
qed

text \<open>
  C8, as the code has it: for every list of records whose years are integers of magnitude
  at most \<open>2 ^ 52\<close>, the records of one duration come out in the reverse of their input
  order, since the reversal that makes the order descending also reverses every run of
  equal keys that the stable sort had kept in input order.
\<close>

theorem sortShows_reverses_equal_durations:
  assumes "list_all safe_show xs"
  shows "filter (\<lambda>s. js_sub (end' s) (start s) = k) (sortShows xs)
     = rev (filter (\<lambda>s. js_sub (end' s) (start s) = k) xs)"
  using assms by (rule sortShows_equal_keys)

text \<open>C8 at three records, the first and the last of duration 5.\<close>

theorem sortShows_reverses_equal_durations_witness:
  "filter (\<lambda>s. js_sub (end' s) (start s) = Fin 5)
     (sortShows [\<lparr>title = ''A'', start = Fin 2000, end' = Fin 2005\<rparr>,
                 \<lparr>title = ''C'', start = Fin 2000, end' = Fin 2009\<rparr>,
                 \<lparr>title = ''B'', start = Fin 2001, end' = Fin 2006\<rparr>])
   = [\<lparr>title = ''B'', start = Fin 2001, end' = Fin 2006\<rparr>,
      \<lparr>title = ''A'', start = Fin 2000, end' = Fin 2005\<rparr>]"
  using sortShows_reverses_equal_durations
    [of "[\<lparr>title = ''A'', start = Fin 2000, end' = Fin 2005\<rparr>,
          \<lparr>title = ''C'', start = Fin 2000, end' = Fin 2009\<rparr>,
          \<lparr>title = ''B'', start = Fin 2001, end' = Fin 2006\<rparr>]" "Fin 5"]
  by (simp add: safe_show_def safe_year_def)

text \<open>
  C8, as stated, fails on two records of equal duration: \<open>A\<close> (2000 to 2005) is given
  before \<open>B\<close> (2001 to 2006) and comes out after it.
\<close>

theorem sortShows_not_stable_counterexample:
  "js_sub (Fin 2005) (Fin 2000) = js_sub (Fin 2006) (Fin 2001)
   \<and> sortShows [\<lparr>title = ''A'', start = Fin 2000, end' = Fin 2005\<rparr>,
                \<lparr>title = ''B'', start = Fin 2001, end' = Fin 2006\<rparr>]
     = [\<lparr>title = ''B'', start = Fin 2001, end' = Fin 2006\<rparr>,
        \<lparr>title = ''A'', start = Fin 2000, end' = Fin 2005\<rparr>]"
  by (simp add: sortShows_def sortBy_def Ord_concat_empty sort_cmp_def
      byPeriod_def contramap_def N_Ord_def)

text \<open>
  C10: the output of \<open>sortShows\<close> is a permutation of its input, whatever the years are
  (\<open>NaN\<close> and the infinities included): the same records with the same multiplicities,
  hence the same length.
\<close>

theorem sortShows_permutation:
  "mset (sortShows xs) = mset xs \<and> length (sortShows xs) = length xs"
proof -
  have m: "mset (sortShows xs) = mset xs"
    by (simp add: sortShows_def sortBy_def mset_sort_cmp)
  then have "length (sortShows xs) = length xs" by (rule mset_eq_length)
  with m show ?thesis by simp
qed

end
